theory Spec2Isabelle
  imports Complex_Main "HOL-Library.AList"
begin

section \<open>Strings\<close>

text \<open>
  A Python \<open>str\<close> is a sequence of code points. The model uses \<open>string\<close>, whose
  characters are the code points below 256, and gives each of them the behaviour
  Python gives it: \<open>str.lower\<close>, \<open>str.isspace\<close> (which is also the class \<open>\s\<close> of
  \<open>re\<close>) and the class \<open>\w\<close> of \<open>re\<close>.
\<close>

definition code :: "char \<Rightarrow> nat" where
  "code c = of_char c"

definition lower_char :: "char \<Rightarrow> char" where
  "lower_char c =
     (let n = code c in
      if (65 \<le> n \<and> n \<le> 90) \<or> (192 \<le> n \<and> n \<le> 222 \<and> n \<noteq> 215)
      then char_of (n + 32) else c)"

definition lower :: "string \<Rightarrow> string" where
  "lower s = map lower_char s"

definition isspace :: "char \<Rightarrow> bool" where
  "isspace c = (let n = code c in (9 \<le> n \<and> n \<le> 13) \<or> (28 \<le> n \<and> n \<le> 32) \<or> n = 133 \<or> n = 160)"

definition isword :: "char \<Rightarrow> bool" where
  "isword c =
     (let n = code c in
      (48 \<le> n \<and> n \<le> 57) \<or> (65 \<le> n \<and> n \<le> 90) \<or> n = 95 \<or> (97 \<le> n \<and> n \<le> 122)
      \<or> n = 170 \<or> n = 178 \<or> n = 179 \<or> n = 181 \<or> n = 185 \<or> n = 186
      \<or> (188 \<le> n \<and> n \<le> 190) \<or> (192 \<le> n \<and> n \<le> 214) \<or> (216 \<le> n \<and> n \<le> 246)
      \<or> (248 \<le> n \<and> n \<le> 255))"

text \<open>\<open>re.sub(r'[^\w\s-]', '', s)\<close>: every character that is neither a word character, nor
  white space, nor a hyphen is deleted.\<close>

definition kept :: "char \<Rightarrow> bool" where
  "kept c = (isword c \<or> isspace c \<or> c = CHR ''-'')"

definition remove_special :: "string \<Rightarrow> string" where
  "remove_special s = filter kept s"

text \<open>\<open>s.split()\<close>: the maximal runs of characters that are not white space. The first
  argument of \<open>words_from\<close> is the word read so far.\<close>

fun words_from :: "string \<Rightarrow> string \<Rightarrow> string list" where
  "words_from w [] = (if w = [] then [] else [w])"
| "words_from w (c # cs) =
     (if isspace c then (if w = [] then words_from [] cs else w # words_from [] cs)
      else words_from (w @ [c]) cs)"

definition split :: "string \<Rightarrow> string list" where
  "split s = words_from [] s"

text \<open>\<open>sep.join(ws)\<close>.\<close>

fun join :: "string \<Rightarrow> string list \<Rightarrow> string" where
  "join sep [] = []"
| "join sep [w] = w"
| "join sep (w # ws) = w @ sep @ join sep ws"

text \<open>\<open>s.strip()\<close>, \<open>s.endswith(suffix)\<close> and \<open>s.replace(' ', '')\<close>.\<close>

definition strip :: "string \<Rightarrow> string" where
  "strip s = rev (dropWhile isspace (rev (dropWhile isspace s)))"

definition endswith :: "string \<Rightarrow> string \<Rightarrow> bool" where
  "endswith s suffix =
     (length suffix \<le> length s \<and> drop (length s - length suffix) s = suffix)"

definition remove_spaces :: "string \<Rightarrow> string" where
  "remove_spaces s = filter (\<lambda>c. c \<noteq> CHR '' '') s"

section \<open>The entity deduplicator: names\<close>

text \<open>\<open>EntityDeduplicator.normalize_name\<close>. The loop over the suffixes tests each suffix
  once, in the order of the list, against the string as the earlier suffixes left it;
  \<open>normalized[:-len(suffix)]\<close> drops the last \<open>len(suffix)\<close> characters.\<close>

definition suffixes :: "string list" where
  "suffixes = ['' inc'', '' llc'', '' corp'', '' corporation'', '' limited'', '' ltd'']"

definition remove_suffix :: "string \<Rightarrow> string \<Rightarrow> string" where
  "remove_suffix normalized suffix =
     (if endswith normalized suffix
      then take (length normalized - length suffix) normalized
      else normalized)"

definition normalize_name :: "string \<Rightarrow> string" where
  "normalize_name name =
     (let normalized = lower name;
          normalized = remove_special normalized;
          normalized = join '' '' (split normalized);
          normalized = foldl remove_suffix normalized suffixes
      in strip normalized)"

text \<open>Predicates on strings used to state what \<open>normalize_name\<close> returns: a word is a
  non-empty string without white space; a string is collapsed when splitting it at white
  space and joining the words with single spaces gives it back; a string is clean when,
  moreover, lowering it and deleting the special characters changes nothing.\<close>

definition word_ok :: "string \<Rightarrow> bool" where
  "word_ok u = (u \<noteq> [] \<and> (\<forall>c\<in>set u. \<not> isspace c))"

definition collapsed :: "string \<Rightarrow> bool" where
  "collapsed t = (join '' '' (split t) = t)"

definition clean :: "string \<Rightarrow> bool" where
  "clean t = (collapsed t \<and> (\<forall>c\<in>set t. lower_char c = c \<and> kept c))"

section \<open>Values, dictionaries and sets\<close>

text \<open>
  The entity records come from JSON. A value is \<open>None\<close>, a number, a string or a list of
  strings; \<open>truthy\<close> is Python's truth test. A \<open>dict\<close> is an association list in
  insertion order: \<open>map_of\<close> looks a key up, \<open>AList.update\<close> assigns (in place for a key
  that is present, at the end for a new key). A \<open>set\<close> of strings is a list without
  repetitions; Python leaves the order in which a set is iterated unspecified, so every
  iteration goes through \<open>iteration_order\<close> of the environment.
\<close>

datatype pyval = VNone | VNum real | VStr string | VList "string list"

fun truthy :: "pyval \<Rightarrow> bool" where
  "truthy VNone = False"
| "truthy (VNum x) = (x \<noteq> 0)"
| "truthy (VStr s) = (s \<noteq> [])"
| "truthy (VList xs) = (xs \<noteq> [])"

fun hashable :: "pyval \<Rightarrow> bool" where
  "hashable (VList xs) = False"
| "hashable v = True"

type_synonym dict = "(string \<times> pyval) list"

definition dict_get :: "dict \<Rightarrow> string \<Rightarrow> pyval" where
  "dict_get d k = (case map_of d k of None \<Rightarrow> VNone | Some v \<Rightarrow> v)"

definition set_add :: "'a \<Rightarrow> 'a list \<Rightarrow> 'a list" where
  "set_add x xs = (if x \<in> set xs then xs else xs @ [x])"

datatype error = KeyError string | TypeError | ValueError

text \<open>What the code takes from outside: the hexadecimal SHA-256 digest of a string
  (\<open>hashlib\<close>), the cosine of the TF-IDF vectors of two names (scikit-learn; \<open>None\<close> when
  the vectorizer raises), and the iteration order of sets.\<close>

record env =
  sha256_hexdigest :: "string \<Rightarrow> string"
  tfidf_cosine :: "string \<Rightarrow> string \<Rightarrow> real option"
  iteration_order :: "string list \<Rightarrow> string list"

text \<open>An entity record: the keys \<open>'@type'\<close> and \<open>'name'\<close>, strings when present, and the
  other keys. \<open>get_or\<close> is \<open>entity.get(key, default)\<close> on the first two.\<close>

record entity =
  type_field :: "string option"
  name_field :: "string option"
  other_keys :: dict

definition get_or :: "string option \<Rightarrow> string \<Rightarrow> string" where
  "get_or field dflt = (case field of None \<Rightarrow> dflt | Some s \<Rightarrow> s)"

section \<open>The entity deduplicator\<close>

record EntitySignature =
  canonical_name :: string
  entity_type :: string
  aliases :: "string list"
  properties :: dict
  source_documents :: "pyval list"
  confidence :: real

record deduplicator =
  similarity_threshold :: real
  entity_registry :: "(string \<times> EntitySignature) list"
  name_index :: "(string \<times> string list) list"
  type_index :: "(string \<times> string list) list"

definition new_deduplicator :: "real \<Rightarrow> deduplicator" where
  "new_deduplicator threshold =
     \<lparr>similarity_threshold = threshold, entity_registry = [], name_index = [], type_index = []\<rparr>"

definition generate_canonical_id :: "env \<Rightarrow> string \<Rightarrow> string \<Rightarrow> string" where
  "generate_canonical_id ev etype name =
     (let normalized = normalize_name name;
          content = etype @ '':'' @ normalized
      in ''entity:'' @ lower etype @ '':'' @ take 12 (sha256_hexdigest ev content))"

definition calculate_similarity :: "env \<Rightarrow> string \<Rightarrow> string \<Rightarrow> real" where
  "calculate_similarity ev name1 name2 =
     (if name1 = [] \<or> name2 = [] then 0
      else if normalize_name name1 = normalize_name name2 then 1
      else case tfidf_cosine ev name1 name2 of
             Some similarity \<Rightarrow> similarity
           | None \<Rightarrow>
               (let set1 = set (remove_spaces (lower name1));
                    set2 = set (remove_spaces (lower name2))
                in if set1 = {} \<or> set2 = {} then 0
                   else real (card (set1 \<inter> set2)) / real (card (set1 \<union> set2))))"

text \<open>A loop that appends to \<open>matches\<close>; a failing dictionary lookup ends it.\<close>

fun collect :: "('a \<Rightarrow> error + 'b list) \<Rightarrow> 'a list \<Rightarrow> error + 'b list" where
  "collect f [] = Inr []"
| "collect f (x # xs) =
     (case f x of
        Inl err \<Rightarrow> Inl err
      | Inr ys \<Rightarrow> (case collect f xs of Inl err \<Rightarrow> Inl err | Inr zs \<Rightarrow> Inr (ys @ zs)))"

definition exact_matches :: "env \<Rightarrow> deduplicator \<Rightarrow> string \<Rightarrow> string \<Rightarrow> error + (string \<times> real) list" where
  "exact_matches ev d normalized etype =
     (case map_of (name_index d) normalized of
        None \<Rightarrow> Inr []
      | Some ids \<Rightarrow>
          collect (\<lambda>canonical_id.
              case map_of (entity_registry d) canonical_id of
                None \<Rightarrow> Inl (KeyError canonical_id)
              | Some signature \<Rightarrow>
                  Inr (if entity_type signature = etype then [(canonical_id, 1)] else []))
            (iteration_order ev ids))"

definition first_similar :: "env \<Rightarrow> real \<Rightarrow> string \<Rightarrow> string list \<Rightarrow> real list" where
  "first_similar ev threshold entity_name names_to_check =
     (case find (\<lambda>name. calculate_similarity ev entity_name name \<ge> threshold) names_to_check of
        None \<Rightarrow> []
      | Some name \<Rightarrow> [calculate_similarity ev entity_name name])"

definition fuzzy_matches :: "env \<Rightarrow> deduplicator \<Rightarrow> string \<Rightarrow> string \<Rightarrow> error + (string \<times> real) list" where
  "fuzzy_matches ev d entity_name etype =
     (case map_of (type_index d) etype of
        None \<Rightarrow> Inr []
      | Some ids \<Rightarrow>
          collect (\<lambda>canonical_id.
              case map_of (entity_registry d) canonical_id of
                None \<Rightarrow> Inl (KeyError canonical_id)
              | Some signature \<Rightarrow>
                  (let names_to_check =
                         canonical_name signature # iteration_order ev (aliases signature)
                   in Inr (map (Pair canonical_id)
                             (first_similar ev (similarity_threshold d) entity_name
                                names_to_check))))
            (iteration_order ev ids))"

definition property_matches :: "deduplicator \<Rightarrow> entity \<Rightarrow> string \<Rightarrow> (string \<times> real) list" where
  "property_matches d e etype =
     (let email = dict_get (other_keys e) ''email'';
          website = dict_get (other_keys e) ''website'';
          identifier = dict_get (other_keys e) ''identifier''
      in if truthy email \<or> truthy website \<or> truthy identifier
         then concat (map (\<lambda>(canonical_id, signature).
                if entity_type signature \<noteq> etype then []
                else (if truthy email \<and> email = dict_get (properties signature) ''email''
                      then [(canonical_id, 95 / 100)] else [])
                   @ (if truthy website \<and> website = dict_get (properties signature) ''website''
                      then [(canonical_id, 95 / 100)] else [])
                   @ (if truthy identifier
                         \<and> identifier = dict_get (properties signature) ''identifier''
                      then [(canonical_id, 1)] else []))
              (entity_registry d))
         else [])"

text \<open>\<open>sorted(matches, key=lambda x: x[1], reverse=True)\<close> is stable: matches of equal
  confidence keep their order. The loop after it keeps the first match of every
  canonical id.\<close>

definition sort_matches :: "(string \<times> real) list \<Rightarrow> (string \<times> real) list" where
  "sort_matches matches = sort_key (\<lambda>m. - snd m) matches"

fun unique_matches :: "string list \<Rightarrow> (string \<times> real) list \<Rightarrow> (string \<times> real) list" where
  "unique_matches seen [] = []"
| "unique_matches seen (m # ms) =
     (if fst m \<in> set seen then unique_matches seen ms
      else m # unique_matches (fst m # seen) ms)"

definition find_matches :: "env \<Rightarrow> deduplicator \<Rightarrow> entity \<Rightarrow> error + (string \<times> real) list" where
  "find_matches ev d e =
     (let entity_name = get_or (name_field e) [];
          etype = get_or (type_field e) []
      in if entity_name = [] then Inr []
         else
           (case exact_matches ev d (normalize_name entity_name) etype of
              Inl err \<Rightarrow> Inl err
            | Inr exact \<Rightarrow>
                (case fuzzy_matches ev d entity_name etype of
                   Inl err \<Rightarrow> Inl err
                 | Inr fuzzy \<Rightarrow>
                     Inr (unique_matches []
                            (sort_matches (exact @ fuzzy @ property_matches d e etype))))))"

definition reserved :: "string list" where
  "reserved = [''@id'', ''@type'', ''name'']"

definition merge_property :: "env \<Rightarrow> dict \<Rightarrow> string \<times> pyval \<Rightarrow> dict" where
  "merge_property ev props item =
     (let key = fst item; val = snd item
      in if key \<notin> set reserved \<and> truthy val
         then (if map_of props key = None \<or> \<not> truthy (dict_get props key)
               then AList.update key val props
               else (case (val, dict_get props key) of
                       (VList new, VList old) \<Rightarrow>
                         AList.update key (VList (iteration_order ev (remdups (old @ new)))) props
                     | _ \<Rightarrow> props))
         else props)"

definition add_source_document :: "entity \<Rightarrow> pyval list \<Rightarrow> error + pyval list" where
  "add_source_document e docs =
     (let found_in = dict_get (other_keys e) ''foundIn''
      in if truthy found_in
         then (if hashable found_in then Inr (set_add found_in docs) else Inl TypeError)
         else Inr docs)"

definition merge_entities :: "env \<Rightarrow> deduplicator \<Rightarrow> string \<Rightarrow> entity \<Rightarrow> real \<Rightarrow> error + deduplicator" where
  "merge_entities ev d canonical_id new_entity conf =
     (case map_of (entity_registry d) canonical_id of
        None \<Rightarrow> Inl (KeyError canonical_id)
      | Some signature \<Rightarrow>
          (let new_name = get_or (name_field new_entity) [];
               aliases' =
                 (if new_name \<noteq> []
                     \<and> normalize_name new_name \<noteq> normalize_name (canonical_name signature)
                  then set_add new_name (aliases signature) else aliases signature);
               properties' = foldl (merge_property ev) (properties signature) (other_keys new_entity)
           in case add_source_document new_entity (source_documents signature) of
                Inl err \<Rightarrow> Inl err
              | Inr documents' \<Rightarrow>
                  Inr (d\<lparr>entity_registry :=
                         AList.update canonical_id
                           (signature\<lparr>aliases := aliases', properties := properties',
                              source_documents := documents',
                              confidence := (confidence signature + conf) / 2\<rparr>)
                           (entity_registry d)\<rparr>)))"

definition index_add :: "string \<Rightarrow> string \<Rightarrow> (string \<times> string list) list \<Rightarrow> (string \<times> string list) list" where
  "index_add key canonical_id index =
     AList.update key
       (set_add canonical_id (case map_of index key of None \<Rightarrow> [] | Some ids \<Rightarrow> ids)) index"

text \<open>The \<open>else\<close> branch of \<open>add_entity\<close>, which creates the canonical entity.\<close>

definition new_signature :: "entity \<Rightarrow> pyval list \<Rightarrow> EntitySignature" where
  "new_signature e documents =
     \<lparr>canonical_name = get_or (name_field e) [],
      entity_type = get_or (type_field e) [],
      aliases = [],
      properties = filter (\<lambda>(k, v). k \<notin> set reserved) (other_keys e),
      source_documents = documents,
      confidence = 1\<rparr>"

definition mint :: "env \<Rightarrow> deduplicator \<Rightarrow> entity \<Rightarrow> error + string \<times> deduplicator" where
  "mint ev d e =
     (let canonical_id =
            generate_canonical_id ev (get_or (type_field e) ''Unknown'')
              (get_or (name_field e) ''unnamed'')
      in case add_source_document e [] of
           Inl err \<Rightarrow> Inl err
         | Inr documents \<Rightarrow>
             (let signature = new_signature e documents;
                  normalized = normalize_name (canonical_name signature)
              in Inr (canonical_id,
                      d\<lparr>entity_registry := AList.update canonical_id signature (entity_registry d),
                        name_index := index_add normalized canonical_id (name_index d),
                        type_index :=
                          index_add (entity_type signature) canonical_id (type_index d)\<rparr>)))"

text \<open>The test of \<open>add_entity\<close> that chooses between merging and minting:
  \<open>matches and matches[0][1] >= self.similarity_threshold\<close>.\<close>

definition merges :: "deduplicator \<Rightarrow> (string \<times> real) list \<Rightarrow> bool" where
  "merges d matches =
     (case matches of [] \<Rightarrow> False | m # _ \<Rightarrow> snd m \<ge> similarity_threshold d)"

definition add_entity :: "env \<Rightarrow> deduplicator \<Rightarrow> entity \<Rightarrow> error + string \<times> deduplicator" where
  "add_entity ev d e =
     (case find_matches ev d e of
        Inl err \<Rightarrow> Inl err
      | Inr matches \<Rightarrow>
          if merges d matches
          then (let canonical_id = fst (hd matches)
                in case merge_entities ev d canonical_id e (snd (hd matches)) of
                     Inl err \<Rightarrow> Inl err
                   | Inr d' \<Rightarrow> Inr (canonical_id, d'))
          else mint ev d e)"

text \<open>The callers' loop \<open>for entity in entities: dedup.add_entity(entity)\<close>, with the
  canonical ids it returns.\<close>

fun add_entities :: "env \<Rightarrow> deduplicator \<Rightarrow> entity list \<Rightarrow> error + string list \<times> deduplicator" where
  "add_entities ev d [] = Inr ([], d)"
| "add_entities ev d (e # es) =
     (case add_entity ev d e of
        Inl err \<Rightarrow> Inl err
      | Inr (canonical_id, d') \<Rightarrow>
          (case add_entities ev d' es of
             Inl err \<Rightarrow> Inl err
           | Inr (ids, d'') \<Rightarrow> Inr (canonical_id # ids, d'')))"

section \<open>The relationship deduplicator\<close>

definition predicate_map :: "(string \<times> string) list" where
  "predicate_map =
     [(''supports'', ''supports''), (''support'', ''supports''), (''evidenceFor'', ''supports''),
      (''opposes'', ''opposes''), (''oppose'', ''opposes''), (''contradicts'', ''opposes''),
      (''addresses'', ''addresses''), (''address'', ''addresses''), (''answers'', ''addresses'')]"

definition normalize_relationship :: "string \<Rightarrow> string \<Rightarrow> string \<Rightarrow> string \<times> string \<times> string" where
  "normalize_relationship subject predicate obj =
     (let normalized_predicate =
            (case map_of predicate_map (lower predicate) of
               None \<Rightarrow> lower predicate
             | Some p \<Rightarrow> p)
      in (subject, normalized_predicate, obj))"

type_synonym relationships = "((string \<times> string \<times> string) \<times> dict) list"

definition merge_new_keys :: "dict \<Rightarrow> dict \<Rightarrow> dict" where
  "merge_new_keys stored props =
     foldl (\<lambda>acc item. if map_of acc (fst item) = None
                        then AList.update (fst item) (snd item) acc else acc) stored props"

definition add_relationship :: "relationships \<Rightarrow> string \<Rightarrow> string \<Rightarrow> string \<Rightarrow> dict option \<Rightarrow> relationships" where
  "add_relationship rels subject predicate obj props =
     (let triple = normalize_relationship subject predicate obj
      in case map_of rels triple of
           None \<Rightarrow> AList.update triple (case props of None \<Rightarrow> [] | Some ps \<Rightarrow> ps) rels
         | Some stored \<Rightarrow>
             (case props of
                None \<Rightarrow> rels
              | Some ps \<Rightarrow>
                  if ps = [] then rels
                  else AList.update triple (merge_new_keys stored ps) rels))"

section \<open>Runs of the deduplicator\<close>

text \<open>The number of calls of \<open>add_entity\<close>, over a sequence of observations, that take
  the merging branch.\<close>

fun count_merges :: "env \<Rightarrow> deduplicator \<Rightarrow> entity list \<Rightarrow> error + nat" where
  "count_merges ev d [] = Inr 0"
| "count_merges ev d (e # es) =
     (case find_matches ev d e of
        Inl err \<Rightarrow> Inl err
      | Inr matches \<Rightarrow>
          (case add_entity ev d e of
             Inl err \<Rightarrow> Inl err
           | Inr (canonical_id, d') \<Rightarrow>
               (case count_merges ev d' es of
                  Inl err \<Rightarrow> Inl err
                | Inr n \<Rightarrow> Inr (if merges d matches then Suc n else n))))"

text \<open>
  The observations that contribute to the entry the registry holds under a canonical
  id: the observation that created the entry, then those merged into it. The code keeps
  no such list; \<open>contributions\<close> runs \<open>add_entity\<close> over a sequence and records it
  beside the registry. A mint under an id that is already registered replaces the entry,
  so it starts the list of that id again.
\<close>

definition contribute :: "deduplicator \<Rightarrow> (string \<times> real) list \<Rightarrow> string \<Rightarrow> entity
    \<Rightarrow> (string \<Rightarrow> entity list) \<Rightarrow> (string \<Rightarrow> entity list)" where
  "contribute d matches canonical_id e contributed =
     contributed (canonical_id := (if merges d matches then contributed canonical_id @ [e] else [e]))"

fun contributions :: "env \<Rightarrow> deduplicator \<Rightarrow> (string \<Rightarrow> entity list) \<Rightarrow> entity list
    \<Rightarrow> error + deduplicator \<times> (string \<Rightarrow> entity list)" where
  "contributions ev d contributed [] = Inr (d, contributed)"
| "contributions ev d contributed (e # es) =
     (case find_matches ev d e of
        Inl err \<Rightarrow> Inl err
      | Inr matches \<Rightarrow>
          (case add_entity ev d e of
             Inl err \<Rightarrow> Inl err
           | Inr (canonical_id, d') \<Rightarrow>
               contributions ev d' (contribute d matches canonical_id e contributed) es))"

section \<open>Concrete observations\<close>

text \<open>
  The environment of the concrete runs below: the SHA-256 digests of the strings that
  are hashed in them, as \<open>hashlib\<close> computes them; the TF-IDF cosine of the names that are
  compared in them (character n-grams of length 2 to 4 inside word boundaries: the names
  \<open>"ab cd cd"\<close> and \<open>"ab ab cd"\<close> have the same twelve n-grams, with counts 1 and 2
  exchanged, so their cosine is 24/30; names without a common n-gram have cosine 0);
  sets iterated in insertion order.
\<close>

definition example_digest :: "string \<Rightarrow> string" where
  "example_digest content =
     (if content = ''regen:Agent:regen network''
        then ''b5d36f134f197cd8b481f4021ab8df8a808ef70bdc7e3036ddbf4205ad996ed1''
      else if content = ''Unknown:x''
        then ''1093cd0606f58e3fc4b7eee5394d50accd2713a7131bef76e21e501c82cc1abb''
      else if content = ''regen:Agent:''
        then ''5a3da8691a1f0dcb7b02554d32d7ace25a9b9c27de28166cdc0dfa5ca199ace5''
      else if content = ''regen:Agent:ab cd cd''
        then ''33fdbee1a7e936d29d1294a0ae58e3ea8e01ebfa8e041f18a824bf0f0cd7dcbd''
      else if content = ''regen:Agent:ab ab cd''
        then ''39be48376752ab4ea06878aabbf7a86dc6172b5ec87850f4aa840d5ea76624f5''
      else if content = ''regen:Agent:xx''
        then ''52cda8a1f86a66fb45158d9b4763114388ce27f4b5621f8b79bcf0d042eb8741''
      else if content = ''regen:Agent:zz''
        then ''92d58cee0508ee5e0b1a41e74e474f53b0d04b68aab99d60a13ba79184de2675''
      else [])"

definition example_cosine :: "string \<Rightarrow> string \<Rightarrow> real option" where
  "example_cosine name1 name2 =
     (if (name1 = ''ab cd cd'' \<and> name2 = ''ab ab cd'') \<or> (name1 = ''ab ab cd'' \<and> name2 = ''ab cd cd'')
      then Some (4 / 5) else Some 0)"

definition example_env :: env where
  "example_env =
     \<lparr>sha256_hexdigest = example_digest, tfidf_cosine = example_cosine,
      iteration_order = (\<lambda>ids. ids)\<rparr>"

text \<open>The three observations of the example at the end of the source file.\<close>

definition regen_network :: entity where
  "regen_network =
     \<lparr>type_field = Some ''regen:Agent'', name_field = Some ''Regen Network'',
      other_keys = [(''website'', VStr ''https://regen.network''), (''foundIn'', VStr ''doc1.md'')]\<rparr>"

definition regen_network_inc :: entity where
  "regen_network_inc =
     \<lparr>type_field = Some ''regen:Agent'', name_field = Some ''Regen Network Inc.'',
      other_keys = [(''email'', VStr ''info@regen.network''), (''foundIn'', VStr ''doc2.md'')]\<rparr>"

definition regen_network_upper :: entity where
  "regen_network_upper =
     \<lparr>type_field = Some ''regen:Agent'', name_field = Some ''REGEN NETWORK'',
      other_keys = [(''description'', VStr ''Ecological data platform''),
                    (''foundIn'', VStr ''doc3.md'')]\<rparr>"


text \<open>Two observations without a name, of the same type.\<close>

definition unnamed_first :: entity where
  "unnamed_first =
     \<lparr>type_field = Some ''regen:Agent'', name_field = Some [],
      other_keys = [(''email'', VStr ''first@regen.network''), (''foundIn'', VStr ''doc1.md'')]\<rparr>"

definition unnamed_second :: entity where
  "unnamed_second =
     \<lparr>type_field = Some ''regen:Agent'', name_field = Some [],
      other_keys = [(''website'', VStr ''https://second.example''), (''foundIn'', VStr ''doc2.md'')]\<rparr>"

text \<open>An observation named \<open>"X"\<close> without the key \<open>'@type'\<close>, and one of type
  \<open>"Unknown"\<close> with the same name.\<close>

definition untyped_x :: entity where
  "untyped_x = \<lparr>type_field = None, name_field = Some ''X'', other_keys = []\<rparr>"

definition unknown_x :: entity where
  "unknown_x = \<lparr>type_field = Some ''Unknown'', name_field = Some ''X'', other_keys = []\<rparr>"

text \<open>Four observations of one type: the second resembles the first (cosine 0.8) and
  shares no property with it; the third has the e-mail address of the second, the fourth
  its website; the names of the third and the fourth resemble no other name.\<close>

definition obs_a :: entity where
  "obs_a =
     \<lparr>type_field = Some ''regen:Agent'', name_field = Some ''ab cd cd'',
      other_keys = [(''email'', VStr ''a@example.org''), (''website'', VStr ''https://a.example'')]\<rparr>"

definition obs_b :: entity where
  "obs_b =
     \<lparr>type_field = Some ''regen:Agent'', name_field = Some ''ab ab cd'',
      other_keys = [(''email'', VStr ''b@example.org''), (''website'', VStr ''https://b.example'')]\<rparr>"

definition obs_c :: entity where
  "obs_c =
     \<lparr>type_field = Some ''regen:Agent'', name_field = Some ''xx'',
      other_keys = [(''email'', VStr ''b@example.org'')]\<rparr>"

definition obs_d :: entity where
  "obs_d =
     \<lparr>type_field = Some ''regen:Agent'', name_field = Some ''zz'',
      other_keys = [(''website'', VStr ''https://b.example'')]\<rparr>"

section \<open>Facts about the string operations\<close>

lemma code_char_of: "n < 256 \<Longrightarrow> code (char_of n) = n"
  by (simp add: code_def)

lemma lower_char_idem: "lower_char (lower_char c) = lower_char c"
proof -
  define n where "n = code c"
  define up where "up = (\<lambda>m::nat. (65 \<le> m \<and> m \<le> 90) \<or> (192 \<le> m \<and> m \<le> 222 \<and> m \<noteq> 215))"
  have lc: "lower_char d = (if up (code d) then char_of (code d + 32) else d)" for d
    unfolding lower_char_def Let_def up_def by (rule refl)
  show ?thesis
  proof (cases "up n")
    case True
    then have "n + 32 < 256" and nup: "\<not> up (n + 32)"
      unfolding up_def by arith+
    then have "code (char_of (n + 32)) = n + 32"
      by (simp add: code_char_of)
    with True nup show ?thesis
      by (simp add: lc n_def)
  next
    case False
    then show ?thesis
      by (simp add: lc n_def)
  qed
qed

lemma isspace_space: "isspace CHR '' ''"
  by (simp add: isspace_def code_def)

lemma kept_space: "kept CHR '' ''"
  by (simp add: kept_def isspace_space)

lemma lower_char_space: "lower_char CHR '' '' = CHR '' ''"
  by (simp add: lower_char_def code_def)

lemma words_from_ok:
  "\<forall>c\<in>set w. \<not> isspace c \<Longrightarrow> u \<in> set (words_from w s) \<Longrightarrow> word_ok u"
proof (induction s arbitrary: w)
  case Nil
  then show ?case by (cases "w = []") (simp_all add: word_ok_def)
next
  case (Cons c cs)
  show ?case
  proof (cases "isspace c")
    case True
    with Cons.prems(2) have "u = w \<and> w \<noteq> [] \<or> u \<in> set (words_from [] cs)"
      by (cases "w = []") simp_all
    then show ?thesis
    proof
      assume "u = w \<and> w \<noteq> []"
      with Cons.prems(1) show ?thesis by (simp add: word_ok_def)
    next
      assume "u \<in> set (words_from [] cs)"
      then show ?thesis by (intro Cons.IH [of "[]"]) simp_all
    qed
  next
    case False
    with Cons.prems(2) have "u \<in> set (words_from (w @ [c]) cs)" by simp
    moreover from False Cons.prems(1) have "\<forall>d\<in>set (w @ [c]). \<not> isspace d" by simp
    ultimately show ?thesis by (intro Cons.IH [of "w @ [c]"])
  qed
qed

lemma words_from_chars:
  "u \<in> set (words_from w s) \<Longrightarrow> set u \<subseteq> set w \<union> set s"
proof (induction s arbitrary: w)
  case Nil
  then show ?case by (cases "w = []") simp_all
next
  case (Cons c cs)
  show ?case
  proof (cases "isspace c")
    case True
    with Cons.prems have "u = w \<or> u \<in> set (words_from [] cs)"
      by (cases "w = []") simp_all
    then show ?thesis
    proof
      assume "u = w"
      then show ?thesis by auto
    next
      assume "u \<in> set (words_from [] cs)"
      then have "set u \<subseteq> set [] \<union> set cs" by (rule Cons.IH)
      then show ?thesis by auto
    qed
  next
    case False
    with Cons.prems have "u \<in> set (words_from (w @ [c]) cs)" by simp
    then have "set u \<subseteq> set (w @ [c]) \<union> set cs" by (rule Cons.IH)
    then show ?thesis by auto
  qed
qed

lemma words_from_word:
  "\<forall>c\<in>set u. \<not> isspace c \<Longrightarrow> words_from w (u @ s) = words_from (w @ u) s"
  by (induction u arbitrary: w) simp_all

lemma words_from_space:
  "isspace c \<Longrightarrow> words_from w (p @ c # s) = words_from w p @ words_from [] s"
  by (induction p arbitrary: w) simp_all

lemma split_word: "word_ok u \<Longrightarrow> split u = [u]"
  using words_from_word [of u "[]" "[]"] by (simp add: split_def word_ok_def)

lemma split_ok: "u \<in> set (split s) \<Longrightarrow> word_ok u"
  unfolding split_def by (rule words_from_ok [of "[]"]) simp_all

lemma split_chars: "u \<in> set (split s) \<Longrightarrow> set u \<subseteq> set s"
  unfolding split_def using words_from_chars [of u "[]" s] by simp

lemma split_join: "\<forall>u\<in>set ws. word_ok u \<Longrightarrow> split (join '' '' ws) = ws"
proof (induction "'' ''" ws rule: join.induct)
  case 1
  then show ?case by (simp add: split_def)
next
  case (2 w)
  then show ?case by (simp add: split_word)
next
  case (3 w v ws)
  have "split (w @ CHR '' '' # join '' '' (v # ws)) = split w @ split (join '' '' (v # ws))"
    unfolding split_def by (rule words_from_space [OF isspace_space])
  with 3 show ?case by (simp add: split_word)
qed

lemma join_snoc: "join sep (ws @ [u]) = (if ws = [] then u else join sep ws @ sep @ u)"
  by (induction sep ws rule: join.induct) simp_all

lemma join_chars: "set (join sep ws) \<subseteq> set sep \<union> \<Union> (set ` set ws)"
  by (induction sep ws rule: join.induct) auto


lemma collapsed_join_split: "collapsed (join '' '' (split s))"
  unfolding collapsed_def by (simp add: split_join split_ok)

lemma collapsed_prefix:
  assumes "collapsed (p @ CHR '' '' # u)" and "word_ok u"
  shows "collapsed p"
proof -
  have "words_from [] (p @ CHR '' '' # u) = words_from [] p @ words_from [] u"
    by (rule words_from_space [OF isspace_space])
  with assms(2) have sp: "split (p @ CHR '' '' # u) = split p @ [u]"
    using split_word [of u] by (simp add: split_def)
  from assms(1) have eq: "join '' '' (split p @ [u]) = p @ CHR '' '' # u"
    by (simp add: collapsed_def sp)
  show ?thesis
  proof (cases "split p = []")
    case True
    with eq have "u = p @ CHR '' '' # u" by simp
    then have "length u = length (p @ CHR '' '' # u)" by simp
    then show ?thesis by simp
  next
    case False
    with eq have "join '' '' (split p) @ CHR '' '' # u = p @ CHR '' '' # u"
      by (simp add: join_snoc)
    then show ?thesis by (simp add: collapsed_def)
  qed
qed

lemma endswith_append: "endswith t suf \<Longrightarrow> t = take (length t - length suf) t @ suf"
proof -
  assume "endswith t suf"
  then have "drop (length t - length suf) t = suf"
    by (simp add: endswith_def)
  then have "take (length t - length suf) t @ suf
      = take (length t - length suf) t @ drop (length t - length suf) t"
    by simp
  then show ?thesis by simp
qed

lemma collapsed_remove_suffix:
  assumes "collapsed t" and "word_ok u"
  shows "collapsed (remove_suffix t (CHR '' '' # u))"
proof (cases "endswith t (CHR '' '' # u)")
  case True
  define p where "p = take (length t - length (CHR '' '' # u)) t"
  from True have "t = p @ CHR '' '' # u"
    unfolding p_def by (rule endswith_append)
  with assms have "collapsed p" by (auto intro: collapsed_prefix)
  with True show ?thesis by (simp add: remove_suffix_def p_def)
next
  case False
  with assms(1) show ?thesis by (simp add: remove_suffix_def)
qed

lemma join_ends:
  "\<forall>u\<in>set ws. word_ok u \<Longrightarrow> ws \<noteq> [] \<Longrightarrow>
     join '' '' ws \<noteq> [] \<and> \<not> isspace (hd (join '' '' ws)) \<and> \<not> isspace (last (join '' '' ws))"
proof (induction "'' ''" ws rule: join.induct)
  case 1
  then show ?case by simp
next
  case (2 w)
  then have "w \<noteq> []" and "\<forall>c\<in>set w. \<not> isspace c"
    by (simp_all add: word_ok_def)
  then show ?case by simp
next
  case (3 w v ws)
  then have IH: "join '' '' (v # ws) \<noteq> [] \<and> \<not> isspace (last (join '' '' (v # ws)))"
    by simp
  from 3(2) have "w \<noteq> []" and "\<forall>c\<in>set w. \<not> isspace c"
    by (simp_all add: word_ok_def)
  then have "\<not> isspace (hd w)" by simp
  with IH \<open>w \<noteq> []\<close> show ?case by simp
qed

lemma strip_id:
  assumes "t = [] \<or> (\<not> isspace (hd t) \<and> \<not> isspace (last t))"
  shows "strip t = t"
proof (cases "t = []")
  case True
  then show ?thesis by (simp add: strip_def)
next
  case False
  with assms have h: "\<not> isspace (hd t)" and l: "\<not> isspace (hd (rev t))"
    by (simp_all add: hd_rev)
  from h have "dropWhile isspace t = t"
    by (simp add: dropWhile_eq_self_iff)
  moreover from l have "dropWhile isspace (rev t) = rev t"
    by (simp add: dropWhile_eq_self_iff)
  ultimately show ?thesis by (simp add: strip_def)
qed

lemma strip_collapsed:
  assumes "collapsed t"
  shows "strip t = t"
proof (cases "split t = []")
  case True
  with assms show ?thesis by (simp add: collapsed_def strip_def)
next
  case False
  have "\<forall>u\<in>set (split t). word_ok u" by (simp add: split_ok)
  from join_ends [OF this False] assms show ?thesis
    by (intro strip_id) (simp add: collapsed_def)
qed


lemma suffixes_shape:
  assumes "suf \<in> set suffixes"
  shows "\<exists>u. suf = CHR '' '' # u \<and> word_ok u"
proof -
  have "word_ok ''inc''" "word_ok ''llc''" "word_ok ''corp''" "word_ok ''corporation''"
    "word_ok ''limited''" "word_ok ''ltd''"
    by (simp_all add: word_ok_def isspace_def code_def)
  with assms show ?thesis
    by (auto simp: suffixes_def)
qed

lemma clean_remove_suffix:
  assumes "clean t" and "suf \<in> set suffixes"
  shows "clean (remove_suffix t suf)"
proof -
  from assms(2) obtain u where u: "suf = CHR '' '' # u" "word_ok u"
    using suffixes_shape by blast
  from assms(1) u have "collapsed (remove_suffix t suf)"
    by (simp add: clean_def collapsed_remove_suffix)
  moreover have "set (remove_suffix t suf) \<subseteq> set t"
    by (simp add: remove_suffix_def set_take_subset)
  ultimately show ?thesis
    using assms(1) by (auto simp: clean_def)
qed

lemma clean_foldl:
  "clean t \<Longrightarrow> set sufs \<subseteq> set suffixes \<Longrightarrow> clean (foldl remove_suffix t sufs)"
  by (induction sufs arbitrary: t) (simp_all add: clean_remove_suffix)

lemma clean_collapse: "clean (join '' '' (split (remove_special (lower s))))"
proof -
  let ?x = "remove_special (lower s)"
  have "lower_char c = c \<and> kept c" if "c \<in> set (join '' '' (split ?x))" for c
  proof -
    from that join_chars [of "'' ''" "split ?x"]
    have "c = CHR '' '' \<or> (\<exists>u\<in>set (split ?x). c \<in> set u)" by auto
    then show ?thesis
    proof
      assume "c = CHR '' ''"
      then show ?thesis by (simp add: kept_space lower_char_space)
    next
      assume "\<exists>u\<in>set (split ?x). c \<in> set u"
      then have "c \<in> set ?x" using split_chars by blast
      then show ?thesis
        by (auto simp: remove_special_def lower_def lower_char_idem)
    qed
  qed
  then show ?thesis
    by (simp add: clean_def collapsed_join_split)
qed

lemma normalize_name_eq:
  "normalize_name s = foldl remove_suffix (join '' '' (split (remove_special (lower s)))) suffixes"
proof -
  have "clean (foldl remove_suffix (join '' '' (split (remove_special (lower s)))) suffixes)"
    by (rule clean_foldl [OF clean_collapse]) simp
  then show ?thesis
    by (simp add: normalize_name_def Let_def strip_collapsed clean_def)
qed

lemma clean_normalize_name: "clean (normalize_name s)"
  unfolding normalize_name_eq by (rule clean_foldl [OF clean_collapse]) simp

lemma clean_fixed:
  assumes "clean t"
  shows "join '' '' (split (remove_special (lower t))) = t"
proof -
  from assms have "lower t = t"
    by (simp add: clean_def lower_def map_idI)
  moreover from assms have "remove_special t = t"
    by (simp add: clean_def remove_special_def)
  ultimately show ?thesis
    using assms by (simp add: clean_def collapsed_def)
qed

lemma remove_suffix_length: "length (remove_suffix t suf) \<le> length t"
  by (simp add: remove_suffix_def)

lemma foldl_remove_suffix_length: "length (foldl remove_suffix t sufs) \<le> length t"
proof (induction sufs arbitrary: t)
  case Nil
  show ?case by simp
next
  case (Cons suf sufs)
  have "length (foldl remove_suffix (remove_suffix t suf) sufs) \<le> length (remove_suffix t suf)"
    by (rule Cons.IH)
  also have "\<dots> \<le> length t" by (rule remove_suffix_length)
  finally show ?case by simp
qed

lemma foldl_remove_suffix_fixed:
  assumes "\<forall>suf\<in>set sufs. suf \<noteq> []"
  shows "foldl remove_suffix t sufs = t \<longleftrightarrow> (\<forall>suf\<in>set sufs. \<not> endswith t suf)"
  using assms
proof (induction sufs)
  case Nil
  show ?case by simp
next
  case (Cons suf sufs)
  show ?case
  proof (cases "endswith t suf")
    case True
    from Cons.prems have "0 < length suf" by simp
    moreover from True have "length suf \<le> length t"
      by (simp add: endswith_def)
    ultimately have "length t - length suf < length t" by arith
    with True have "length (remove_suffix t suf) < length t"
      by (simp add: remove_suffix_def)
    with foldl_remove_suffix_length [of "remove_suffix t suf" sufs]
    have "length (foldl remove_suffix t (suf # sufs)) < length t" by simp
    then have "foldl remove_suffix t (suf # sufs) \<noteq> t" by auto
    with True show ?thesis by auto
  next
    case False
    then have "remove_suffix t suf = t" by (simp add: remove_suffix_def)
    with False Cons show ?thesis by simp
  qed
qed

lemma suffixes_nonempty: "\<forall>suf\<in>set suffixes. suf \<noteq> []"
  by (simp add: suffixes_def)

section \<open>Normalization\<close>

text \<open>
  Claim C3, as amended. \<open>normalize_name\<close> is total: it is a function of the string with
  no error branch, since none of the operations of the source can raise on a \<open>str\<close>.
  It is idempotent at \<open>s\<close> exactly when \<open>normalize_name s\<close> does not itself end in one of
  the legal suffixes: the loop removes each suffix of the list at most once, so a name
  that carries two of them keeps one, which a second normalization removes.
\<close>

theorem normalize_name_idempotent_iff:
  "normalize_name (normalize_name s) = normalize_name s
     \<longleftrightarrow> (\<forall>suffix\<in>set suffixes. \<not> endswith (normalize_name s) suffix)"
proof -
  have "normalize_name (normalize_name s) = foldl remove_suffix (normalize_name s) suffixes"
    by (subst normalize_name_eq) (simp add: clean_fixed clean_normalize_name)
  then show ?thesis
    by (simp add: foldl_remove_suffix_fixed suffixes_nonempty)
qed

text \<open>The theorem at \<open>"Regen Network Inc."\<close>, whose normal form \<open>"regen network"\<close> ends in
  no suffix of the list.\<close>

theorem normalize_name_idempotent_iff_witness:
  "normalize_name ''Regen Network Inc.'' = ''regen network''
   \<and> list_all (\<lambda>suffix. \<not> endswith (normalize_name ''Regen Network Inc.'') suffix) suffixes
   \<and> normalize_name (normalize_name ''Regen Network Inc.'') = normalize_name ''Regen Network Inc.''"
proof -
  have n: "normalize_name ''Regen Network Inc.'' = ''regen network''"
    by code_simp
  have "list_all (\<lambda>suffix. \<not> endswith ''regen network'' suffix) suffixes"
    by code_simp
  with normalize_name_idempotent_iff [of "''Regen Network Inc.''"] show ?thesis
    by (simp only: n simp_thms list_all_iff)
qed

text \<open>Claim C3 as stated fails at \<open>"foo inc inc"\<close>: the first normalization returns
  \<open>"foo inc"\<close>, the second \<open>"foo"\<close>.\<close>

theorem normalize_name_not_idempotent:
  "normalize_name (normalize_name ''foo inc inc'') \<noteq> normalize_name ''foo inc inc''"
  by code_simp


section \<open>Facts about the deduplicator\<close>

lemma map_of_update_same: "map_of (AList.update k v al) k = Some v"
  by (simp add: update_conv')

lemma map_of_update_other: "k' \<noteq> k \<Longrightarrow> map_of (AList.update k v al) k' = map_of al k'"
  by (simp add: update_conv')

lemma find_matches_unnamed: "get_or (name_field e) [] = [] \<Longrightarrow> find_matches ev d e = Inr []"
  by (simp add: find_matches_def)

lemma find_matches_new: "find_matches ev (new_deduplicator threshold) e = Inr []"
  by (simp add: find_matches_def new_deduplicator_def exact_matches_def fuzzy_matches_def
      property_matches_def sort_matches_def Let_def)

lemma not_merges_Nil: "\<not> merges d []"
  by (simp add: merges_def)

lemma add_entity_mint:
  "find_matches ev d e = Inr matches \<Longrightarrow> \<not> merges d matches \<Longrightarrow> add_entity ev d e = mint ev d e"
  by (simp add: add_entity_def)

lemma mint_result:
  assumes "add_source_document e [] = Inr documents"
  shows "mint ev d e =
     Inr (generate_canonical_id ev (get_or (type_field e) ''Unknown'') (get_or (name_field e) ''unnamed''),
          d\<lparr>entity_registry :=
               AList.update
                 (generate_canonical_id ev (get_or (type_field e) ''Unknown'')
                    (get_or (name_field e) ''unnamed''))
                 (new_signature e documents) (entity_registry d),
             name_index :=
               index_add (normalize_name (get_or (name_field e) []))
                 (generate_canonical_id ev (get_or (type_field e) ''Unknown'')
                    (get_or (name_field e) ''unnamed''))
                 (name_index d),
             type_index :=
               index_add (get_or (type_field e) [])
                 (generate_canonical_id ev (get_or (type_field e) ''Unknown'')
                    (get_or (name_field e) ''unnamed''))
                 (type_index d)\<rparr>)"
  using assms by (simp add: mint_def Let_def new_signature_def)

lemma mint_registry:
  assumes "mint ev d e = Inr (cid, d')"
  shows "\<exists>documents. add_source_document e [] = Inr documents
           \<and> cid = generate_canonical_id ev (get_or (type_field e) ''Unknown'')
                     (get_or (name_field e) ''unnamed'')
           \<and> map_of (entity_registry d') cid = Some (new_signature e documents)
           \<and> (\<forall>other. other \<noteq> cid \<longrightarrow>
                  map_of (entity_registry d') other = map_of (entity_registry d) other)"
proof (cases "add_source_document e []")
  case (Inl err)
  with assms show ?thesis by (simp add: mint_def)
next
  case (Inr documents)
  from assms show ?thesis
    unfolding mint_result [OF Inr]
    by (intro exI [of _ documents]) (auto simp: Inr map_of_update_same map_of_update_other)
qed

section \<open>Minting\<close>




section \<open>Relationships\<close>

text \<open>
  Claim C7: the triples \<open>("a", "supports", "b")\<close> and \<open>("a", "evidenceFor", "b")\<close> are
  stored as one relationship with predicate \<open>"supports"\<close>. The code stores two:
  \<open>normalize_relationship\<close> looks up \<open>predicate.lower()\<close>, that is \<open>"evidencefor"\<close>, and
  the table has the key \<open>"evidenceFor"\<close>, which no lowered predicate equals.
\<close>

theorem evidenceFor_is_not_deduplicated:
  "map fst (add_relationship (add_relationship [] ''a'' ''supports'' ''b'' None)
              ''a'' ''evidenceFor'' ''b'' None)
   = [(''a'', ''supports'', ''b''), (''a'', ''evidencefor'', ''b'')]"
  by code_simp


section \<open>Observations without a name\<close>

text \<open>
  Claim C10. Two observations whose name is the empty string and whose types are equal
  are both minted, whatever the registry holds: \<open>find_matches\<close> returns no candidate for
  either, both get the canonical id made from the type and the empty name, and after
  the second call the registry holds under that id the signature made from the second
  observation alone, so the properties and source documents of the first are gone.
  (The two premises on \<open>add_source_document\<close> say that \<open>'foundIn'\<close>, when it is given,
  can be a member of a set.)
\<close>

theorem unnamed_entities_share_an_id:
  assumes "name_field e1 = Some []" and "name_field e2 = Some []"
    and "type_field e1 = type_field e2"
    and "add_source_document e1 [] = Inr documents1"
    and "add_source_document e2 [] = Inr documents2"
  shows "\<exists>d1 d2.
           find_matches ev d e1 = Inr [] \<and> find_matches ev d1 e2 = Inr []
           \<and> add_entity ev d e1
               = Inr (generate_canonical_id ev (get_or (type_field e1) ''Unknown'') [], d1)
           \<and> add_entity ev d1 e2
               = Inr (generate_canonical_id ev (get_or (type_field e1) ''Unknown'') [], d2)
           \<and> map_of (entity_registry d2)
                 (generate_canonical_id ev (get_or (type_field e1) ''Unknown'') [])
               = Some (new_signature e2 documents2)"
proof -
  let ?cid = "generate_canonical_id ev (get_or (type_field e1) ''Unknown'') []"
  have f1: "find_matches ev d' e1 = Inr []" for d'
    using assms(1) by (simp add: find_matches_unnamed get_or_def)
  have f2: "find_matches ev d' e2 = Inr []" for d'
    using assms(2) by (simp add: find_matches_unnamed get_or_def)
  from mint_result [OF assms(4), of ev d] assms(1)
  obtain d1 where m1: "mint ev d e1 = Inr (?cid, d1)"
    by (simp add: get_or_def)
  from mint_result [OF assms(5), of ev d1] assms(2,3)
  obtain d2 where m2: "mint ev d1 e2 = Inr (?cid, d2)"
    by (simp add: get_or_def)
  from mint_registry [OF m2] assms(5)
  have r: "map_of (entity_registry d2) ?cid = Some (new_signature e2 documents2)"
    by auto
  have "add_entity ev d e1 = Inr (?cid, d1)"
    using add_entity_mint [OF f1 not_merges_Nil] m1 by simp
  moreover have "add_entity ev d1 e2 = Inr (?cid, d2)"
    using add_entity_mint [OF f2 not_merges_Nil] m2 by simp
  ultimately show ?thesis
    using f1 f2 r by blast
qed

text \<open>The theorem at two unnamed observations of type \<open>"regen:Agent"\<close>, added to an empty
  registry.\<close>

theorem unnamed_entities_share_an_id_witness:
  "\<exists>d1 d2.
     find_matches example_env (new_deduplicator (85 / 100)) unnamed_first = Inr []
     \<and> find_matches example_env d1 unnamed_second = Inr []
     \<and> add_entity example_env (new_deduplicator (85 / 100)) unnamed_first
         = Inr (''entity:regen:agent:5a3da8691a1f'', d1)
     \<and> add_entity example_env d1 unnamed_second = Inr (''entity:regen:agent:5a3da8691a1f'', d2)
     \<and> map_of (entity_registry d2) ''entity:regen:agent:5a3da8691a1f''
         = Some \<lparr>canonical_name = [], entity_type = ''regen:Agent'', aliases = [],
                 properties = [(''website'', VStr ''https://second.example''),
                               (''foundIn'', VStr ''doc2.md'')],
                 source_documents = [VStr ''doc2.md''], confidence = 1\<rparr>"
proof -
  have n: "name_field unnamed_first = Some []" "name_field unnamed_second = Some []"
    and t: "type_field unnamed_first = type_field unnamed_second"
    by (simp_all add: unnamed_first_def unnamed_second_def)
  have s1: "add_source_document unnamed_first [] = Inr [VStr ''doc1.md'']"
    by code_simp
  have s2: "add_source_document unnamed_second [] = Inr [VStr ''doc2.md'']"
    by code_simp
  have c: "generate_canonical_id example_env (get_or (type_field unnamed_first) ''Unknown'') []
      = ''entity:regen:agent:5a3da8691a1f''"
    by code_simp
  have g: "new_signature unnamed_second [VStr ''doc2.md'']
      = \<lparr>canonical_name = [], entity_type = ''regen:Agent'', aliases = [],
         properties = [(''website'', VStr ''https://second.example''),
                       (''foundIn'', VStr ''doc2.md'')],
         source_documents = [VStr ''doc2.md''], confidence = 1\<rparr>"
    by code_simp
  from unnamed_entities_share_an_id [OF n t s1 s2, of example_env "new_deduplicator (85 / 100)"]
  show ?thesis by (simp only: c g)
qed

section \<open>Canonical identifiers\<close>

text \<open>
  Claim C4. Added to a deduplicator that was just created, an observation with a type
  and a name is minted, and its canonical id is \<open>"entity:"\<close>, the lowered type, \<open>":"\<close>
  and the first twelve digits of the digest of the type, \<open>":"\<close> and the normalized name:
  a function of the type and of the normalized name only. So two observations of one
  type whose names have the same normal form get the same id, whatever threshold the
  deduplicator has and whatever else the observations carry.
\<close>

theorem canonical_id_deterministic:
  assumes "type_field e1 = Some etype" and "name_field e1 = Some name1"
    and "type_field e2 = Some etype" and "name_field e2 = Some name2"
    and "normalize_name name1 = normalize_name name2"
    and "add_source_document e1 [] = Inr documents1"
    and "add_source_document e2 [] = Inr documents2"
  shows "\<exists>d1 d2.
           add_entity ev (new_deduplicator threshold1) e1
             = Inr (generate_canonical_id ev etype name1, d1)
           \<and> add_entity ev (new_deduplicator threshold2) e2
               = Inr (generate_canonical_id ev etype name1, d2)
           \<and> generate_canonical_id ev etype name1
               = ''entity:'' @ lower etype @ '':''
                   @ take 12 (sha256_hexdigest ev (etype @ '':'' @ normalize_name name1))"
proof -
  have eq: "generate_canonical_id ev etype name2 = generate_canonical_id ev etype name1"
    using assms(5) by (simp add: generate_canonical_id_def)
  from mint_result [OF assms(6), of ev "new_deduplicator threshold1"] assms(1,2)
  obtain d1 where
    "mint ev (new_deduplicator threshold1) e1 = Inr (generate_canonical_id ev etype name1, d1)"
    by (simp add: get_or_def)
  then have a1: "add_entity ev (new_deduplicator threshold1) e1
      = Inr (generate_canonical_id ev etype name1, d1)"
    using add_entity_mint [OF find_matches_new not_merges_Nil] by simp
  from mint_result [OF assms(7), of ev "new_deduplicator threshold2"] assms(3,4) eq
  obtain d2 where
    "mint ev (new_deduplicator threshold2) e2 = Inr (generate_canonical_id ev etype name1, d2)"
    by (simp add: get_or_def)
  then have a2: "add_entity ev (new_deduplicator threshold2) e2
      = Inr (generate_canonical_id ev etype name1, d2)"
    using add_entity_mint [OF find_matches_new not_merges_Nil] by simp
  have "generate_canonical_id ev etype name1
      = ''entity:'' @ lower etype @ '':''
          @ take 12 (sha256_hexdigest ev (etype @ '':'' @ normalize_name name1))"
    by (simp add: generate_canonical_id_def)
  with a1 a2 show ?thesis by blast
qed

text \<open>The theorem at \<open>"Regen Network"\<close> and \<open>"REGEN NETWORK"\<close>.\<close>

theorem canonical_id_deterministic_witness:
  "normalize_name ''Regen Network'' = normalize_name ''REGEN NETWORK''
   \<and> (\<exists>d1 d2.
        add_entity example_env (new_deduplicator (85 / 100)) regen_network
          = Inr (''entity:regen:agent:b5d36f134f19'', d1)
        \<and> add_entity example_env (new_deduplicator (1 / 2)) regen_network_upper
            = Inr (''entity:regen:agent:b5d36f134f19'', d2))"
proof -
  have t: "type_field regen_network = Some ''regen:Agent''"
      "type_field regen_network_upper = Some ''regen:Agent''"
    and n: "name_field regen_network = Some ''Regen Network''"
      "name_field regen_network_upper = Some ''REGEN NETWORK''"
    by (simp_all add: regen_network_def regen_network_upper_def)
  have e: "normalize_name ''Regen Network'' = normalize_name ''REGEN NETWORK''"
    by code_simp
  have s1: "add_source_document regen_network [] = Inr [VStr ''doc1.md'']"
    by code_simp
  have s2: "add_source_document regen_network_upper [] = Inr [VStr ''doc3.md'']"
    by code_simp
  have c: "generate_canonical_id example_env ''regen:Agent'' ''Regen Network''
      = ''entity:regen:agent:b5d36f134f19''"
    by code_simp
  from canonical_id_deterministic [OF t(1) n(1) t(2) n(2) e s1 s2,
      of example_env "85 / 100" "1 / 2"] e
  show ?thesis unfolding c by blast
qed

section \<open>Similarity\<close>









end
